theory Spec2Isabelle
  imports Main "HOL-Library.Word"
begin

section \<open>The Modbus cell of \<^verbatim>\<open>include/MB/modbusCell.hpp\<close>\<close>

text \<open>
  \<^verbatim>\<open>MB::ModbusCell\<close> is a class with one private member,
  \<^verbatim>\<open>std::variant<uint16_t, uint8_t, bool> _value\<close>. The variant is a datatype with
  the three alternatives in the order of the template arguments; the class is a record
  with that single field. All three alternatives are scalar types whose construction
  cannot throw, so the variant is never valueless and needs no fourth constructor.
\<close>

type_synonym uint16_t = "16 word"
type_synonym uint8_t = "8 word"

datatype variant = V_uint16 uint16_t | V_uint8 uint8_t | V_bool bool

record ModbusCell =
  value_v :: variant

text \<open>
  \<^verbatim>\<open>std::get<T>\<close> throws \<^verbatim>\<open>std::bad_variant_access\<close> when the variant holds
  another alternative. It is the only exception that any member function can raise.
\<close>

datatype error = bad_variant_access

subsection \<open>The standard library functions the class calls\<close>

definition holds_alternative_uint16 :: "variant \<Rightarrow> bool" where
  "holds_alternative_uint16 v = (case v of V_uint16 _ \<Rightarrow> True | _ \<Rightarrow> False)"

definition holds_alternative_uint8 :: "variant \<Rightarrow> bool" where
  "holds_alternative_uint8 v = (case v of V_uint8 _ \<Rightarrow> True | _ \<Rightarrow> False)"

definition holds_alternative_bool :: "variant \<Rightarrow> bool" where
  "holds_alternative_bool v = (case v of V_bool _ \<Rightarrow> True | _ \<Rightarrow> False)"

definition get_uint16 :: "variant \<Rightarrow> error + uint16_t" where
  "get_uint16 v = (case v of V_uint16 r \<Rightarrow> Inr r | _ \<Rightarrow> Inl bad_variant_access)"

definition get_uint8 :: "variant \<Rightarrow> error + uint8_t" where
  "get_uint8 v = (case v of V_uint8 x \<Rightarrow> Inr x | _ \<Rightarrow> Inl bad_variant_access)"

definition get_bool :: "variant \<Rightarrow> error + bool" where
  "get_bool v = (case v of V_bool b \<Rightarrow> Inr b | _ \<Rightarrow> Inl bad_variant_access)"

text \<open>
  The six \<^verbatim>\<open>static_cast\<close>s of the coercing accessors: an integer converts to
  \<^verbatim>\<open>bool\<close> as "is not zero", \<^verbatim>\<open>bool\<close> converts to an integer as 0 or 1, and
  the conversions between the unsigned widths keep the low bits.
\<close>

definition bool_of_uint16 :: "uint16_t \<Rightarrow> bool" where
  "bool_of_uint16 r = (r \<noteq> 0)"

definition bool_of_uint8 :: "uint8_t \<Rightarrow> bool" where
  "bool_of_uint8 x = (x \<noteq> 0)"

definition uint16_of_bool :: "bool \<Rightarrow> uint16_t" where
  "uint16_of_bool b = (if b then 1 else 0)"

definition uint8_of_bool :: "bool \<Rightarrow> uint8_t" where
  "uint8_of_bool b = (if b then 1 else 0)"

definition uint16_of_uint8 :: "uint8_t \<Rightarrow> uint16_t" where
  "uint16_of_uint8 x = ucast x"

definition uint8_of_uint16 :: "uint16_t \<Rightarrow> uint8_t" where
  "uint8_of_uint16 r = ucast r"

text \<open>
  \<^verbatim>\<open>std::to_string\<close> has no overload for the 8-bit and 16-bit types; both promote
  to \<^verbatim>\<open>int\<close>, and \<^verbatim>\<open>std::to_string(int)\<close> prints as \<^verbatim>\<open>%d\<close> does: a minus sign
  for a negative number, then the decimal digits, most significant first.
\<close>

definition digit_char :: "nat \<Rightarrow> char" where
  "digit_char d = ''0123456789'' ! d"

fun digits10 :: "nat \<Rightarrow> string" where
  "digits10 n =
     (if n < 10 then [digit_char n] else digits10 (n div 10) @ [digit_char (n mod 10)])"

declare digits10.simps [simp del]

definition to_string :: "int \<Rightarrow> string" where
  "to_string i = (if i < 0 then CHR ''-'' # digits10 (nat (- i)) else digits10 (nat i))"

subsection \<open>Constructors\<close>

text \<open>
  The defaulted default constructor default-constructs the variant, which holds its first
  alternative, value-initialised: a \<^verbatim>\<open>uint16_t\<close> equal to 0. The three converting
  constructors pass an argument whose type is exactly one of the alternatives.
\<close>

definition ModbusCell_default :: ModbusCell where
  "ModbusCell_default = \<lparr>value_v = V_uint16 0\<rparr>"

definition ModbusCell_reg :: "uint16_t \<Rightarrow> ModbusCell" where
  "ModbusCell_reg reg = \<lparr>value_v = V_uint16 reg\<rparr>"

definition ModbusCell_coil :: "bool \<Rightarrow> ModbusCell" where
  "ModbusCell_coil coil = \<lparr>value_v = V_bool coil\<rparr>"

definition ModbusCell_val :: "uint8_t \<Rightarrow> ModbusCell" where
  "ModbusCell_val val = \<lparr>value_v = V_uint8 val\<rparr>"

definition initReg :: "uint16_t \<Rightarrow> ModbusCell" where
  "initReg reg = ModbusCell_reg reg"

definition initCoil :: "bool \<Rightarrow> ModbusCell" where
  "initCoil coil = ModbusCell_coil coil"

definition initVal :: "uint8_t \<Rightarrow> ModbusCell" where
  "initVal val = ModbusCell_val val"

subsection \<open>Kind predicates\<close>

definition isCoil :: "ModbusCell \<Rightarrow> bool" where
  "isCoil c = holds_alternative_bool (value_v c)"

definition isReg :: "ModbusCell \<Rightarrow> bool" where
  "isReg c = holds_alternative_uint16 (value_v c)"

definition isVal :: "ModbusCell \<Rightarrow> bool" where
  "isVal c = holds_alternative_uint8 (value_v c)"

subsection \<open>Coercing accessors (the non-const overloads)\<close>

text \<open>
  Each accessor runs an \<^verbatim>\<open>if / else if\<close> statement that may assign a converted value
  to \<^verbatim>\<open>_value\<close>, then returns \<^verbatim>\<open>std::get\<close> of the member. The model returns the
  outcome together with the cell after the call. An exception raised while the right-hand
  side of an assignment is evaluated leaves the cell as it was; one raised by the final
  \<^verbatim>\<open>std::get\<close> leaves the cell as the statement before it made it. The returned
  reference is modelled by the value it refers to, which is the payload of the cell
  after the call.
\<close>

definition coil_convert :: "ModbusCell \<Rightarrow> error + ModbusCell" where
  "coil_convert c =
     (if isReg c then
        (case get_uint16 (value_v c) of
           Inl e \<Rightarrow> Inl e
         | Inr r \<Rightarrow> Inr (c\<lparr>value_v := V_bool (bool_of_uint16 r)\<rparr>))
      else if isVal c then
        (case get_uint8 (value_v c) of
           Inl e \<Rightarrow> Inl e
         | Inr x \<Rightarrow> Inr (c\<lparr>value_v := V_bool (bool_of_uint8 x)\<rparr>))
      else Inr c)"

definition coil :: "ModbusCell \<Rightarrow> (error + bool) \<times> ModbusCell" where
  "coil c =
     (case coil_convert c of
        Inl e \<Rightarrow> (Inl e, c)
      | Inr c' \<Rightarrow> (get_bool (value_v c'), c'))"

definition reg_convert :: "ModbusCell \<Rightarrow> error + ModbusCell" where
  "reg_convert c =
     (if isCoil c then
        (case get_bool (value_v c) of
           Inl e \<Rightarrow> Inl e
         | Inr b \<Rightarrow> Inr (c\<lparr>value_v := V_uint16 (uint16_of_bool b)\<rparr>))
      else if isVal c then
        (case get_uint8 (value_v c) of
           Inl e \<Rightarrow> Inl e
         | Inr x \<Rightarrow> Inr (c\<lparr>value_v := V_uint16 (uint16_of_uint8 x)\<rparr>))
      else Inr c)"

definition reg :: "ModbusCell \<Rightarrow> (error + uint16_t) \<times> ModbusCell" where
  "reg c =
     (case reg_convert c of
        Inl e \<Rightarrow> (Inl e, c)
      | Inr c' \<Rightarrow> (get_uint16 (value_v c'), c'))"

definition val_convert :: "ModbusCell \<Rightarrow> error + ModbusCell" where
  "val_convert c =
     (if isCoil c then
        (case get_bool (value_v c) of
           Inl e \<Rightarrow> Inl e
         | Inr b \<Rightarrow> Inr (c\<lparr>value_v := V_uint8 (uint8_of_bool b)\<rparr>))
      else if isReg c then
        (case get_uint16 (value_v c) of
           Inl e \<Rightarrow> Inl e
         | Inr r \<Rightarrow> Inr (c\<lparr>value_v := V_uint8 (uint8_of_uint16 r)\<rparr>))
      else Inr c)"

definition val :: "ModbusCell \<Rightarrow> (error + uint8_t) \<times> ModbusCell" where
  "val c =
     (case val_convert c of
        Inl e \<Rightarrow> (Inl e, c)
      | Inr c' \<Rightarrow> (get_uint8 (value_v c'), c'))"

subsection \<open>Strict accessors (the const overloads)\<close>

text \<open>
  The const overloads are a bare \<^verbatim>\<open>std::get\<close>. They are const member functions of a
  class without mutable members, so the cell after the call is the cell before it; the
  model returns the outcome only.
\<close>

definition coil_const :: "ModbusCell \<Rightarrow> error + bool" where
  "coil_const c = get_bool (value_v c)"

definition reg_const :: "ModbusCell \<Rightarrow> error + uint16_t" where
  "reg_const c = get_uint16 (value_v c)"

definition val_const :: "ModbusCell \<Rightarrow> error + uint8_t" where
  "val_const c = get_uint8 (value_v c)"

subsection \<open>String rendering\<close>

text \<open>
  \<^verbatim>\<open>toString\<close> is const, so the accessors it calls are the strict ones. It is declared
  \<^verbatim>\<open>noexcept\<close>: an exception that reached its boundary would end the program, and the
  model shows it as \<open>Inl\<close>.
\<close>

definition toString :: "ModbusCell \<Rightarrow> error + string" where
  "toString c =
     (if isCoil c then
        (case coil_const c of
           Inl e \<Rightarrow> Inl e
         | Inr b \<Rightarrow> Inr (if b then ''true'' else ''false''))
      else if isReg c then
        (case reg_const c of
           Inl e \<Rightarrow> Inl e
         | Inr r \<Rightarrow> Inr (to_string (uint r)))
      else
        (case val_const c of
           Inl e \<Rightarrow> Inl e
         | Inr x \<Rightarrow> Inr (to_string (uint x))))"

subsection \<open>A call of any member function\<close>

text \<open>
  The public member functions that act on an existing cell, as one type, so that a
  statement can range over all of them. \<open>call\<close> gives the outcome of a call and the
  cell after it: the const members leave the cell as it is, the coercing accessors return
  the cell they produced.
\<close>

datatype operation =
    Op_isCoil | Op_isReg | Op_isVal
  | Op_coil | Op_reg | Op_val
  | Op_coil_const | Op_reg_const | Op_val_const
  | Op_toString

datatype result = R_bool bool | R_uint16 uint16_t | R_uint8 uint8_t | R_string string

fun call :: "operation \<Rightarrow> ModbusCell \<Rightarrow> (error + result) \<times> ModbusCell" where
  "call Op_isCoil c = (Inr (R_bool (isCoil c)), c)"
| "call Op_isReg c = (Inr (R_bool (isReg c)), c)"
| "call Op_isVal c = (Inr (R_bool (isVal c)), c)"
| "call Op_coil c = (case coil c of (r, c') \<Rightarrow> (map_sum id R_bool r, c'))"
| "call Op_reg c = (case reg c of (r, c') \<Rightarrow> (map_sum id R_uint16 r, c'))"
| "call Op_val c = (case val c of (r, c') \<Rightarrow> (map_sum id R_uint8 r, c'))"
| "call Op_coil_const c = (map_sum id R_bool (coil_const c), c)"
| "call Op_reg_const c = (map_sum id R_uint16 (reg_const c), c)"
| "call Op_val_const c = (map_sum id R_uint8 (val_const c), c)"
| "call Op_toString c = (map_sum id R_string (toString c), c)"

subsection \<open>What "decimal text" means\<close>

text \<open>
  The specification says that a register and a value render as "decimal text". Stated on
  its own, without reference to the printing function: a string is the decimal text of
  \<open>n\<close> when it is a non-empty string of the digits 0 to 9, has no leading zero (the text of
  zero is the single digit), and its digits read in base ten give \<open>n\<close>.
\<close>

definition is_digit :: "char \<Rightarrow> bool" where
  "is_digit ch = (ch \<in> set ''0123456789'')"

definition decimal_value :: "string \<Rightarrow> nat" where
  "decimal_value s = foldl (\<lambda>a ch. 10 * a + (of_char ch - 48)) 0 s"

definition decimal_text :: "nat \<Rightarrow> string \<Rightarrow> bool" where
  "decimal_text n s \<longleftrightarrow>
     s \<noteq> [] \<and> list_all is_digit s \<and> (hd s = CHR ''0'' \<longrightarrow> s = ''0'')
     \<and> decimal_value s = n"

section \<open>The member functions on each kind of cell\<close>

text \<open>
  A cell is a register cell, a value cell or a coil cell, and every member function
  evaluates on each of the three forms. The claims below are proved from these equations.
\<close>

lemmas variant_defs =
  holds_alternative_bool_def holds_alternative_uint16_def holds_alternative_uint8_def
  get_bool_def get_uint16_def get_uint8_def

lemmas predicate_defs = isCoil_def isReg_def isVal_def

lemmas strict_defs = coil_const_def reg_const_def val_const_def

lemmas ctor_defs = ModbusCell_default_def ModbusCell_coil_def ModbusCell_reg_def ModbusCell_val_def

lemmas cast_defs = bool_of_uint16_def bool_of_uint8_def uint16_of_bool_def uint8_of_bool_def
  uint16_of_uint8_def uint8_of_uint16_def

lemmas coerce_defs = coil_def reg_def val_def coil_convert_def reg_convert_def val_convert_def

lemma cell_cases [case_names Reg Val Coil]:
  fixes c :: ModbusCell
  obtains r where "c = ModbusCell_reg r" | v where "c = ModbusCell_val v"
  | b where "c = ModbusCell_coil b"
proof (cases c)
  case (fields x)
  then show ?thesis
    using that by (cases x) (simp_all add: ctor_defs)
qed

lemma value_v_eval:
  "value_v (ModbusCell_reg r) = V_uint16 r"
  "value_v (ModbusCell_val v) = V_uint8 v"
  "value_v (ModbusCell_coil b) = V_bool b"
  by (simp_all add: ctor_defs)

lemma predicate_eval:
  "isReg (ModbusCell_reg r)" "\<not> isVal (ModbusCell_reg r)" "\<not> isCoil (ModbusCell_reg r)"
  "\<not> isReg (ModbusCell_val v)" "isVal (ModbusCell_val v)" "\<not> isCoil (ModbusCell_val v)"
  "\<not> isReg (ModbusCell_coil b)" "\<not> isVal (ModbusCell_coil b)" "isCoil (ModbusCell_coil b)"
  by (simp_all add: predicate_defs variant_defs ctor_defs)

lemma strict_eval:
  "reg_const (ModbusCell_reg r) = Inr r"
  "val_const (ModbusCell_reg r) = Inl bad_variant_access"
  "coil_const (ModbusCell_reg r) = Inl bad_variant_access"
  "reg_const (ModbusCell_val v) = Inl bad_variant_access"
  "val_const (ModbusCell_val v) = Inr v"
  "coil_const (ModbusCell_val v) = Inl bad_variant_access"
  "reg_const (ModbusCell_coil b) = Inl bad_variant_access"
  "val_const (ModbusCell_coil b) = Inl bad_variant_access"
  "coil_const (ModbusCell_coil b) = Inr b"
  by (simp_all add: strict_defs variant_defs ctor_defs)

lemma ctor_inject:
  "ModbusCell_reg r = ModbusCell_reg r' \<longleftrightarrow> r = r'"
  "ModbusCell_val v = ModbusCell_val v' \<longleftrightarrow> v = v'"
  "ModbusCell_coil b = ModbusCell_coil b' \<longleftrightarrow> b = b'"
  "ModbusCell_reg r \<noteq> ModbusCell_val v" "ModbusCell_reg r \<noteq> ModbusCell_coil b"
  "ModbusCell_val v \<noteq> ModbusCell_reg r" "ModbusCell_val v \<noteq> ModbusCell_coil b"
  "ModbusCell_coil b \<noteq> ModbusCell_reg r" "ModbusCell_coil b \<noteq> ModbusCell_val v"
  by (simp_all add: ctor_defs)

lemma strict_Inr_iff:
  "reg_const c = Inr r \<longleftrightarrow> c = ModbusCell_reg r"
  "val_const c = Inr v \<longleftrightarrow> c = ModbusCell_val v"
  "coil_const c = Inr b \<longleftrightarrow> c = ModbusCell_coil b"
  by (cases c rule: cell_cases; simp add: strict_eval ctor_inject)+

lemma coil_eval:
  "coil (ModbusCell_reg r) = (Inr (r \<noteq> 0), ModbusCell_coil (r \<noteq> 0))"
  "coil (ModbusCell_val v) = (Inr (v \<noteq> 0), ModbusCell_coil (v \<noteq> 0))"
  "coil (ModbusCell_coil b) = (Inr b, ModbusCell_coil b)"
  by (simp_all add: coerce_defs predicate_defs variant_defs ctor_defs cast_defs)

lemma reg_eval:
  "reg (ModbusCell_reg r) = (Inr r, ModbusCell_reg r)"
  "reg (ModbusCell_val v) = (Inr (ucast v), ModbusCell_reg (ucast v))"
  "reg (ModbusCell_coil b) = (Inr (if b then 1 else 0), ModbusCell_reg (if b then 1 else 0))"
  by (simp_all add: coerce_defs predicate_defs variant_defs ctor_defs cast_defs)

lemma val_eval:
  "val (ModbusCell_reg r) = (Inr (ucast r), ModbusCell_val (ucast r))"
  "val (ModbusCell_val v) = (Inr v, ModbusCell_val v)"
  "val (ModbusCell_coil b) = (Inr (if b then 1 else 0), ModbusCell_val (if b then 1 else 0))"
  by (simp_all add: coerce_defs predicate_defs variant_defs ctor_defs cast_defs)

lemma coercing_total:
  "\<exists>b. fst (coil c) = Inr b" "\<exists>r. fst (reg c) = Inr r" "\<exists>v. fst (val c) = Inr v"
  by (cases c rule: cell_cases; simp add: coil_eval reg_eval val_eval)+

subsection \<open>Conversions between the two widths\<close>

lemma unat_narrow: "unat (ucast (r :: uint16_t) :: uint8_t) = unat r mod 256"
  by (simp add: unsigned_ucast_eq take_bit_eq_mod)

lemma unat_widen: "unat (ucast (v :: uint8_t) :: uint16_t) = unat v"
proof -
  have "unat v < 2 ^ LENGTH(8)"
    by (rule unsigned_less)
  then show ?thesis
    by (simp add: unsigned_ucast_eq take_bit_eq_mod)
qed

lemma widen_narrow: "ucast (ucast (v :: uint8_t) :: uint16_t) = v"
  by (simp add: ucast_up_ucast_id is_up)

subsection \<open>The printing function produces decimal text\<close>

text \<open>
  \<open>digits10\<close> unfolds on itself, so its defining equation is applied one step at a time
  (\<open>subst\<close>) and its properties go by the induction rule of the function.
\<close>

lemma digit_char_cases: "d < 10 \<Longrightarrow> d \<in> {0,1,2,3,4,5,6,7,8,9::nat}"
  by auto

lemma digit_char_is_digit: "d < 10 \<Longrightarrow> is_digit (digit_char d)"
  using digit_char_cases [of d] by (auto simp: is_digit_def digit_char_def)

lemma digit_char_value: "d < 10 \<Longrightarrow> of_char (digit_char d) - 48 = d"
  using digit_char_cases [of d] by (auto simp: digit_char_def)

lemma digit_char_zero: "d < 10 \<Longrightarrow> digit_char d = CHR ''0'' \<longleftrightarrow> d = 0"
  using digit_char_cases [of d] by (auto simp: digit_char_def)

lemma digits10_nonempty: "digits10 n \<noteq> []"
  by (subst digits10.simps) simp

lemma digits10_0: "digits10 0 = ''0''"
  by (subst digits10.simps) (simp add: digit_char_def)

lemma digits10_digits: "list_all is_digit (digits10 n)"
  by (induction n rule: digits10.induct) (subst digits10.simps, simp add: digit_char_is_digit)

lemma decimal_value_snoc:
  "decimal_value (s @ [ch]) = 10 * decimal_value s + (of_char ch - 48)"
  by (simp add: decimal_value_def)

lemma decimal_value_digits10: "decimal_value (digits10 n) = n"
proof (induction n rule: digits10.induct)
  case (1 n)
  show ?case
  proof (cases "n < 10")
    case True
    then show ?thesis
      by (subst digits10.simps) (simp add: decimal_value_def digit_char_value)
  next
    case False
    with 1 have "decimal_value (digits10 (n div 10)) = n div 10"
      by simp
    with False show ?thesis
      by (subst digits10.simps) (simp add: decimal_value_snoc digit_char_value)
  qed
qed

lemma digits10_hd_zero: "hd (digits10 n) = CHR ''0'' \<Longrightarrow> n = 0"
proof (induction n rule: digits10.induct)
  case (1 n)
  show ?case
  proof (cases "n < 10")
    case True
    with 1(2) show ?thesis
      by (subst (asm) digits10.simps) (simp add: digit_char_zero)
  next
    case False
    with 1(2) have "hd (digits10 (n div 10)) = CHR ''0''"
      by (subst (asm) digits10.simps) (simp add: digits10_nonempty)
    with 1(1) False have "n div 10 = 0"
      by simp
    with False show ?thesis
      by simp
  qed
qed

lemma digits10_decimal_text: "decimal_text n (digits10 n)"
proof -
  have "hd (digits10 n) = CHR ''0'' \<longrightarrow> digits10 n = ''0''"
    using digits10_hd_zero [of n] digits10_0 by auto
  then show ?thesis
    by (simp add: decimal_text_def digits10_nonempty digits10_digits decimal_value_digits10)
qed

lemma to_string_uint: "to_string (uint w) = digits10 (unat w)"
  by (simp add: to_string_def)

lemma toString_eval:
  "toString (ModbusCell_reg r) = Inr (to_string (uint r))"
  "toString (ModbusCell_val v) = Inr (to_string (uint v))"
  "toString (ModbusCell_coil b) = Inr (if b then ''true'' else ''false'')"
  by (simp_all add: toString_def predicate_eval strict_eval)

lemma toString_total: "\<exists>s. toString c = Inr s"
  by (cases c rule: cell_cases) (simp_all add: toString_eval)

section \<open>Coercing accessors\<close>

text \<open>
  Claim C1. For every cell and each of the three kinds, the cell after the coercing
  accessor of that kind has that kind and no other: the two other predicates are false and
  the strict accessors of the two other kinds fail on it. If the cell already had the
  requested kind, the accessor returns the stored value as it is and the cell after the
  call is the cell before it.
\<close>

theorem coercing_accessor_sets_kind:
  "(isCoil (snd (coil c)) \<and> \<not> isReg (snd (coil c)) \<and> \<not> isVal (snd (coil c))
      \<and> reg_const (snd (coil c)) = Inl bad_variant_access
      \<and> val_const (snd (coil c)) = Inl bad_variant_access)
   \<and> (isReg (snd (reg c)) \<and> \<not> isCoil (snd (reg c)) \<and> \<not> isVal (snd (reg c))
      \<and> coil_const (snd (reg c)) = Inl bad_variant_access
      \<and> val_const (snd (reg c)) = Inl bad_variant_access)
   \<and> (isVal (snd (val c)) \<and> \<not> isCoil (snd (val c)) \<and> \<not> isReg (snd (val c))
      \<and> coil_const (snd (val c)) = Inl bad_variant_access
      \<and> reg_const (snd (val c)) = Inl bad_variant_access)
   \<and> (isCoil c \<longrightarrow> (\<exists>b. coil_const c = Inr b \<and> coil c = (Inr b, c)))
   \<and> (isReg c \<longrightarrow> (\<exists>r. reg_const c = Inr r \<and> reg c = (Inr r, c)))
   \<and> (isVal c \<longrightarrow> (\<exists>v. val_const c = Inr v \<and> val c = (Inr v, c)))"
  by (cases c rule: cell_cases)
    (simp_all add: coil_eval reg_eval val_eval predicate_eval strict_eval)

theorem coercing_accessor_sets_kind_witness:
  "isCoil (ModbusCell_coil True) \<and> coil (ModbusCell_coil True) = (Inr True, ModbusCell_coil True)
   \<and> isReg (ModbusCell_reg 300) \<and> reg (ModbusCell_reg 300) = (Inr 300, ModbusCell_reg 300)
   \<and> isVal (ModbusCell_val 7) \<and> val (ModbusCell_val 7) = (Inr 7, ModbusCell_val 7)
   \<and> isCoil (snd (coil (ModbusCell_reg 300))) \<and> \<not> isReg (snd (coil (ModbusCell_reg 300)))"
  using coercing_accessor_sets_kind [of "ModbusCell_coil True"]
    coercing_accessor_sets_kind [of "ModbusCell_reg 300"]
    coercing_accessor_sets_kind [of "ModbusCell_val 7"]
  by (simp add: predicate_eval strict_eval coil_eval reg_eval val_eval)

text \<open>
  Claim C2. Coercion to and from a coil follows the boolean rules. On a register or value
  cell the coercing coil accessor returns false when the stored number is 0 and true when
  it is not, and the cell becomes a coil holding that boolean. On a coil cell the coercing
  register and value accessors return 0 for false and 1 for true. A cell "of a kind holding
  \<open>x\<close>" is one whose strict accessor of that kind returns \<open>x\<close>.
\<close>

theorem coil_coercion_rules:
  "(reg_const c = Inr r \<longrightarrow>
      coil c = (Inr (unat r \<noteq> 0), ModbusCell_coil (unat r \<noteq> 0)))
   \<and> (val_const c = Inr v \<longrightarrow>
      coil c = (Inr (unat v \<noteq> 0), ModbusCell_coil (unat v \<noteq> 0)))
   \<and> (coil_const c = Inr b \<longrightarrow>
      (\<exists>r v. reg c = (Inr r, ModbusCell_reg r) \<and> unat r = (if b then 1 else 0)
         \<and> val c = (Inr v, ModbusCell_val v) \<and> unat v = (if b then 1 else 0)))"
  by (simp add: strict_Inr_iff coil_eval reg_eval val_eval unat_eq_0)

theorem coil_coercion_rules_witness:
  "reg_const (ModbusCell_reg 5) = Inr 5
   \<and> coil (ModbusCell_reg 5) = (Inr True, ModbusCell_coil True)
   \<and> reg_const (ModbusCell_reg 0) = Inr 0
   \<and> coil (ModbusCell_reg 0) = (Inr False, ModbusCell_coil False)
   \<and> val_const (ModbusCell_val 9) = Inr 9
   \<and> coil (ModbusCell_val 9) = (Inr True, ModbusCell_coil True)
   \<and> coil_const (ModbusCell_coil True) = Inr True
   \<and> reg (ModbusCell_coil True) = (Inr 1, ModbusCell_reg 1)
   \<and> val (ModbusCell_coil False) = (Inr 0, ModbusCell_val 0)"
  using coil_coercion_rules [of "ModbusCell_reg 5" 5 0 False]
    coil_coercion_rules [of "ModbusCell_reg 0" 0 0 False]
    coil_coercion_rules [of "ModbusCell_val 9" 0 9 False]
    coil_coercion_rules [of "ModbusCell_coil True" 0 0 True]
    coil_coercion_rules [of "ModbusCell_coil False" 0 0 False]
  by (simp add: strict_eval reg_eval val_eval)

text \<open>
  Claim C3. Coercion between register and value is plain narrowing and widening. On a
  register cell holding \<open>r\<close> the coercing value accessor succeeds and returns \<open>r mod 256\<close>,
  whatever \<open>r\<close> is (300 gives 44); on a value cell holding \<open>v\<close> the coercing register
  accessor returns \<open>v\<close> unchanged.
\<close>

theorem reg_val_coercion:
  "(reg_const c = Inr r \<longrightarrow>
      (\<exists>v. val c = (Inr v, ModbusCell_val v) \<and> unat v = unat r mod 256))
   \<and> (val_const c = Inr v \<longrightarrow>
      (\<exists>r. reg c = (Inr r, ModbusCell_reg r) \<and> unat r = unat v))"
  by (simp add: strict_Inr_iff reg_eval val_eval unat_narrow unat_widen)

theorem reg_val_coercion_witness:
  "reg_const (ModbusCell_reg 300) = Inr 300
   \<and> val (ModbusCell_reg 300) = (Inr 44, ModbusCell_val 44)
   \<and> isVal (snd (val (ModbusCell_reg 300)))
   \<and> val_const (ModbusCell_val 200) = Inr 200
   \<and> reg (ModbusCell_val 200) = (Inr 200, ModbusCell_reg 200)"
  using reg_val_coercion [of "ModbusCell_reg 300" 300 0]
    reg_val_coercion [of "ModbusCell_val 200" 0 200]
  by (simp add: strict_eval reg_eval val_eval predicate_eval ctor_inject)

section \<open>Strict accessors\<close>

text \<open>
  Claim C4. A strict accessor succeeds exactly when the active kind is the requested one,
  and then returns the stored value; it fails with \<open>bad_variant_access\<close> (the
  specification's KindMismatch) exactly when the active kind differs. The cell after a
  strict accessor is the cell before it, on failure as on success. No other call fails:
  a call of any member function ends in an error only if it is a strict accessor on a cell
  of another kind.
\<close>

theorem strict_accessor_outcomes:
  "((\<exists>b. coil_const c = Inr b) \<longleftrightarrow> isCoil c)
   \<and> (coil_const c = Inl bad_variant_access \<longleftrightarrow> \<not> isCoil c)
   \<and> (coil_const c = Inr b \<longrightarrow> value_v c = V_bool b)
   \<and> ((\<exists>r. reg_const c = Inr r) \<longleftrightarrow> isReg c)
   \<and> (reg_const c = Inl bad_variant_access \<longleftrightarrow> \<not> isReg c)
   \<and> (reg_const c = Inr r \<longrightarrow> value_v c = V_uint16 r)
   \<and> ((\<exists>v. val_const c = Inr v) \<longleftrightarrow> isVal c)
   \<and> (val_const c = Inl bad_variant_access \<longleftrightarrow> \<not> isVal c)
   \<and> (val_const c = Inr v \<longrightarrow> value_v c = V_uint8 v)
   \<and> snd (call Op_coil_const c) = c \<and> snd (call Op_reg_const c) = c
   \<and> snd (call Op_val_const c) = c
   \<and> ((\<exists>e. fst (call op c) = Inl e) \<longleftrightarrow>
        op = Op_coil_const \<and> \<not> isCoil c \<or> op = Op_reg_const \<and> \<not> isReg c
        \<or> op = Op_val_const \<and> \<not> isVal c)"
proof -
  have strict: "((\<exists>b. coil_const c = Inr b) \<longleftrightarrow> isCoil c)
   \<and> (coil_const c = Inl bad_variant_access \<longleftrightarrow> \<not> isCoil c)
   \<and> (coil_const c = Inr b \<longrightarrow> value_v c = V_bool b)
   \<and> ((\<exists>r. reg_const c = Inr r) \<longleftrightarrow> isReg c)
   \<and> (reg_const c = Inl bad_variant_access \<longleftrightarrow> \<not> isReg c)
   \<and> (reg_const c = Inr r \<longrightarrow> value_v c = V_uint16 r)
   \<and> ((\<exists>v. val_const c = Inr v) \<longleftrightarrow> isVal c)
   \<and> (val_const c = Inl bad_variant_access \<longleftrightarrow> \<not> isVal c)
   \<and> (val_const c = Inr v \<longrightarrow> value_v c = V_uint8 v)"
    by (cases c rule: cell_cases)
      (simp_all add: strict_eval predicate_eval value_v_eval)
  have unchanged: "snd (call Op_coil_const c) = c \<and> snd (call Op_reg_const c) = c
   \<and> snd (call Op_val_const c) = c"
    by simp
  have only: "(\<exists>e. fst (call op c) = Inl e) \<longleftrightarrow>
        op = Op_coil_const \<and> \<not> isCoil c \<or> op = Op_reg_const \<and> \<not> isReg c
        \<or> op = Op_val_const \<and> \<not> isVal c"
  proof (cases op)
    case Op_coil
    with coercing_total(1) [of c] show ?thesis
      by (auto simp: split_beta)
  next
    case Op_reg
    with coercing_total(2) [of c] show ?thesis
      by (auto simp: split_beta)
  next
    case Op_val
    with coercing_total(3) [of c] show ?thesis
      by (auto simp: split_beta)
  next
    case Op_toString
    with toString_total [of c] show ?thesis
      by auto
  next
    case Op_coil_const
    then show ?thesis
      by (cases c rule: cell_cases) (simp_all add: strict_eval predicate_eval)
  next
    case Op_reg_const
    then show ?thesis
      by (cases c rule: cell_cases) (simp_all add: strict_eval predicate_eval)
  next
    case Op_val_const
    then show ?thesis
      by (cases c rule: cell_cases) (simp_all add: strict_eval predicate_eval)
  qed simp_all
  from strict unchanged only show ?thesis
    by blast
qed

theorem strict_accessor_outcomes_witness:
  "coil_const (ModbusCell_coil True) = Inr True
   \<and> value_v (ModbusCell_coil True) = V_bool True
   \<and> \<not> isCoil (ModbusCell_reg 5) \<and> coil_const (ModbusCell_reg 5) = Inl bad_variant_access
   \<and> call Op_coil_const (ModbusCell_reg 5) = (Inl bad_variant_access, ModbusCell_reg 5)
   \<and> reg_const (ModbusCell_reg 5) = Inr 5 \<and> value_v (ModbusCell_reg 5) = V_uint16 5
   \<and> val_const (ModbusCell_val 7) = Inr 7 \<and> value_v (ModbusCell_val 7) = V_uint8 7
   \<and> (\<nexists>e. fst (call Op_coil (ModbusCell_reg 5)) = Inl e)"
  using strict_accessor_outcomes [of "ModbusCell_coil True" True 0 0 Op_coil]
    strict_accessor_outcomes [of "ModbusCell_reg 5" False 5 0 Op_coil]
    strict_accessor_outcomes [of "ModbusCell_reg 5" False 5 0 Op_coil_const]
    strict_accessor_outcomes [of "ModbusCell_val 7" False 0 7 Op_coil]
  by (simp add: strict_eval predicate_eval value_v_eval)

section \<open>Construction\<close>

text \<open>
  Claim C5. Construction round-trips through strict access. A cell constructed from a
  boolean \<open>b\<close> is a coil, is neither a register nor a value, and its strict coil accessor
  returns \<open>b\<close>; a cell constructed from a 16-bit \<open>r\<close> is a register whose strict register
  accessor returns \<open>r\<close>; a cell constructed from an 8-bit \<open>v\<close> is a value whose strict value
  accessor returns \<open>v\<close>.
\<close>

theorem construct_strict_roundtrip:
  "isCoil (ModbusCell_coil b) \<and> \<not> isReg (ModbusCell_coil b) \<and> \<not> isVal (ModbusCell_coil b)
   \<and> coil_const (ModbusCell_coil b) = Inr b
   \<and> isReg (ModbusCell_reg r) \<and> reg_const (ModbusCell_reg r) = Inr r
   \<and> isVal (ModbusCell_val v) \<and> val_const (ModbusCell_val v) = Inr v"
  by (simp add: predicate_eval strict_eval)

text \<open>
  Claim C6. A default-constructed cell is a register cell holding 0. It is the same cell
  as the one constructed from the 16-bit value 0: the same kind, the same stored value,
  and the same outcome and resulting cell under every member function.
\<close>

theorem default_is_register_zero:
  "isReg ModbusCell_default \<and> \<not> isCoil ModbusCell_default \<and> \<not> isVal ModbusCell_default
   \<and> reg_const ModbusCell_default = Inr 0
   \<and> value_v ModbusCell_default = value_v (ModbusCell_reg 0)
   \<and> ModbusCell_default = ModbusCell_reg 0
   \<and> call op ModbusCell_default = call op (ModbusCell_reg 0)"
proof -
  have eq: "ModbusCell_default = ModbusCell_reg 0"
    by (simp add: ModbusCell_default_def ModbusCell_reg_def)
  show ?thesis
    unfolding eq by (simp add: predicate_eval strict_eval)
qed

section \<open>String rendering\<close>

text \<open>
  Claim C7. \<open>toString\<close> returns a string for every cell. For a coil cell the string is
  \<open>true\<close> or \<open>false\<close>, according to the stored boolean; for a register cell it is the
  decimal text of the stored 16-bit number (42 renders as \<open>42\<close>); for a value cell it is
  the decimal text of the stored 8-bit number (7 renders as \<open>7\<close>).
\<close>

theorem toString_rendering:
  "(\<exists>s. toString c = Inr s)
   \<and> (coil_const c = Inr b \<longrightarrow> toString c = Inr (if b then ''true'' else ''false''))
   \<and> (reg_const c = Inr r \<longrightarrow> (\<exists>s. toString c = Inr s \<and> decimal_text (unat r) s))
   \<and> (val_const c = Inr v \<longrightarrow> (\<exists>s. toString c = Inr s \<and> decimal_text (unat v) s))"
  using toString_total [of c]
  by (simp add: strict_Inr_iff toString_eval to_string_uint digits10_decimal_text)

theorem toString_rendering_witness:
  "coil_const (ModbusCell_coil True) = Inr True
   \<and> toString (ModbusCell_coil True) = Inr ''true''
   \<and> coil_const (ModbusCell_coil False) = Inr False
   \<and> toString (ModbusCell_coil False) = Inr ''false''
   \<and> reg_const (ModbusCell_reg 42) = Inr 42
   \<and> toString (ModbusCell_reg 42) = Inr ''42'' \<and> decimal_text 42 ''42''
   \<and> val_const (ModbusCell_val 7) = Inr 7
   \<and> toString (ModbusCell_val 7) = Inr ''7'' \<and> decimal_text 7 ''7''"
  using toString_rendering [of "ModbusCell_coil True" True 0 0]
    toString_rendering [of "ModbusCell_coil False" False 0 0]
    toString_rendering [of "ModbusCell_reg 42" False 42 0]
    toString_rendering [of "ModbusCell_val 7" False 0 7]
  by (simp add: strict_eval toString_eval to_string_def digits10.simps digit_char_def)

section \<open>Kind predicates\<close>

text \<open>
  Claim C8. For every cell exactly one of the three predicates \<open>isCoil\<close>, \<open>isReg\<close>,
  \<open>isVal\<close> is true, and a call of a predicate returns the cell as it was. In particular
  this holds for each constructed cell, and for the cell after a call of any member
  function. The statement is about every value of the cell type, which includes every
  cell that a write through a reference returned by a coercing accessor can produce.
\<close>

theorem kind_predicates_partition:
  "length (filter id [isCoil c, isReg c, isVal c]) = 1
   \<and> call Op_isCoil c = (Inr (R_bool (isCoil c)), c)
   \<and> call Op_isReg c = (Inr (R_bool (isReg c)), c)
   \<and> call Op_isVal c = (Inr (R_bool (isVal c)), c)
   \<and> length (filter id [isCoil ModbusCell_default, isReg ModbusCell_default,
        isVal ModbusCell_default]) = 1
   \<and> length (filter id [isCoil (ModbusCell_reg r), isReg (ModbusCell_reg r),
        isVal (ModbusCell_reg r)]) = 1
   \<and> length (filter id [isCoil (ModbusCell_coil b), isReg (ModbusCell_coil b),
        isVal (ModbusCell_coil b)]) = 1
   \<and> length (filter id [isCoil (ModbusCell_val v), isReg (ModbusCell_val v),
        isVal (ModbusCell_val v)]) = 1
   \<and> length (filter id [isCoil (snd (call op c)), isReg (snd (call op c)),
        isVal (snd (call op c))]) = 1"
proof -
  have one: "length (filter id [isCoil x, isReg x, isVal x]) = 1" for x
    by (cases x rule: cell_cases) (simp_all add: predicate_eval)
  show ?thesis
    by (simp only: one call.simps simp_thms)
qed

section \<open>Why string rendering cannot fail\<close>

text \<open>
  Claim C9. \<open>toString\<close> returns a string for every cell although it calls the strict
  accessors. Each of its three calls is reached only under the test for the kind it
  requests: the strict coil accessor when \<open>isCoil\<close> holds, the strict register accessor when
  \<open>isCoil\<close> fails and \<open>isReg\<close> holds, the strict value accessor when both fail; under
  that test the accessor succeeds. The tests themselves leave the cell as it was.
\<close>

theorem toString_never_fails:
  "(\<exists>s. toString c = Inr s)
   \<and> (isCoil c \<longrightarrow> (\<exists>b. coil_const c = Inr b))
   \<and> (\<not> isCoil c \<and> isReg c \<longrightarrow> (\<exists>r. reg_const c = Inr r))
   \<and> (\<not> isCoil c \<and> \<not> isReg c \<longrightarrow> (\<exists>v. val_const c = Inr v))
   \<and> snd (call Op_isCoil c) = c \<and> snd (call Op_isReg c) = c"
  by (cases c rule: cell_cases) (simp_all add: toString_eval predicate_eval strict_eval)

theorem toString_never_fails_witness:
  "isCoil (ModbusCell_coil True) \<and> coil_const (ModbusCell_coil True) = Inr True
   \<and> \<not> isCoil (ModbusCell_reg 42) \<and> isReg (ModbusCell_reg 42)
   \<and> reg_const (ModbusCell_reg 42) = Inr 42
   \<and> \<not> isCoil (ModbusCell_val 7) \<and> \<not> isReg (ModbusCell_val 7)
   \<and> val_const (ModbusCell_val 7) = Inr 7
   \<and> toString (ModbusCell_val 7) = Inr ''7''"
  using toString_never_fails [of "ModbusCell_coil True"]
    toString_never_fails [of "ModbusCell_reg 42"]
    toString_never_fails [of "ModbusCell_val 7"]
  by (simp add: predicate_eval strict_eval toString_eval to_string_def digits10.simps
      digit_char_def)

section \<open>Round trips through the register kind\<close>

text \<open>
  Claim C10. Coercion through the register kind loses nothing of the smaller kinds. From a
  value cell holding \<open>v\<close>, the coercing register accessor followed by the coercing value
  accessor returns \<open>v\<close> and the cell is the value cell it was; from a coil cell holding
  \<open>b\<close>, the coercing register accessor followed by the coercing coil accessor returns \<open>b\<close>
  and the cell is the coil cell it was. In between, the cell is a register.
\<close>

theorem coercion_through_register_lossless:
  "(val_const c = Inr v \<longrightarrow> val (snd (reg c)) = (Inr v, c) \<and> isReg (snd (reg c)))
   \<and> (coil_const c = Inr b \<longrightarrow> coil (snd (reg c)) = (Inr b, c) \<and> isReg (snd (reg c)))"
  by (simp add: strict_Inr_iff reg_eval val_eval coil_eval predicate_eval widen_narrow)

theorem coercion_through_register_lossless_witness:
  "val_const (ModbusCell_val 200) = Inr 200
   \<and> reg (ModbusCell_val 200) = (Inr 200, ModbusCell_reg 200)
   \<and> val (ModbusCell_reg 200) = (Inr 200, ModbusCell_val 200)
   \<and> isVal (ModbusCell_val 200)
   \<and> coil_const (ModbusCell_coil True) = Inr True
   \<and> reg (ModbusCell_coil True) = (Inr 1, ModbusCell_reg 1)
   \<and> coil (ModbusCell_reg 1) = (Inr True, ModbusCell_coil True)"
  using coercion_through_register_lossless [of "ModbusCell_val 200" 200 True]
    coercion_through_register_lossless [of "ModbusCell_coil True" 0 True]
  by (simp add: strict_eval reg_eval val_eval coil_eval predicate_eval)

end
